theory Spec2Isabelle
  imports Main "HOL-Library.Sublist"
begin

section \<open>The control-port client of tor-fetch\<close>

text \<open>
  The repository carries its module twice, as two near-duplicate copies: one that loads
  the Node modules with \<^verbatim>\<open>require\<close> and one that loads them with \<^verbatim>\<open>import()\<close> and
  exports \<^verbatim>\<open>createProxySettings\<close>, \<^verbatim>\<open>torfetch\<close>, \<^verbatim>\<open>TorControlPort\<close> and
  \<^verbatim>\<open>renewTorSession\<close> by name. The functions embedded here have the same body in both
  copies, except that the text of the control-port hint differs (a URL and the spelling
  of one identifier), which is why the hint takes the copy as a parameter; that the
  require copy reads the default proxy settings through \<^verbatim>\<open>_defaultProxySettings || {}\<close>;
  and that the import copy guards \<^verbatim>\<open>lines\<close> against being undefined, which it is
  only for an undefined \<^verbatim>\<open>data\<close>.

  JavaScript strings are modelled as \<^typ>\<open>string\<close>, one \<^typ>\<open>char\<close> for each code unit.
\<close>

subsection \<open>The JavaScript builtins the code calls\<close>

text \<open>\<^verbatim>\<open>s.includes(pat)\<close>: \<^verbatim>\<open>pat\<close> occurs in \<^verbatim>\<open>s\<close> at some position.\<close>

fun includes_js :: "string \<Rightarrow> string \<Rightarrow> bool" where
  "includes_js [] pat = (pat = [])"
| "includes_js (c # cs) pat = (prefix pat (c # cs) \<or> includes_js cs pat)"

text \<open>
  The search step of \<^verbatim>\<open>s.split(sep)\<close> for a non-empty \<^verbatim>\<open>sep\<close>: the text before the
  first occurrence of \<^verbatim>\<open>sep\<close> and the text after it, or \<open>None\<close> when there is none.
\<close>

fun cut_at :: "string \<Rightarrow> string \<Rightarrow> (string \<times> string) option" where
  "cut_at sep [] = None"
| "cut_at sep (c # cs) =
     (if prefix sep (c # cs) then Some ([], drop (length sep) (c # cs))
      else (case cut_at sep cs of None \<Rightarrow> None | Some (a, b) \<Rightarrow> Some (c # a, b)))"

text \<open>
  \<^verbatim>\<open>s.split(sep)\<close> with a string separator: the pieces between the occurrences of
  \<^verbatim>\<open>sep\<close>, found from left to right, each search starting after the previous
  occurrence. An empty separator splits into the single code units.
\<close>

function split_js :: "string \<Rightarrow> string \<Rightarrow> string list" where
  "split_js sep s =
     (if sep = [] then map (\<lambda>c. [c]) s
      else (case cut_at sep s of None \<Rightarrow> [s] | Some (a, b) \<Rightarrow> a # split_js sep b))"
  by pat_completeness auto
termination
proof (relation "measure (\<lambda>(sep, s). length s)")
  show "wf (measure (\<lambda>(sep, s). length s))"
    by simp
next
  fix sep s :: string and x2 :: "string \<times> string" and a b :: string
  assume sep: "sep \<noteq> []" and found: "cut_at sep s = Some x2" and pair: "(a, b) = x2"
  have shorter: "cut_at sep t = Some (u, v) \<Longrightarrow> length v < length t" for t u v
  proof (induction t arbitrary: u)
    case Nil
    then show ?case by simp
  next
    case (Cons c cs)
    show ?case
    proof (cases "prefix sep (c # cs)")
      case True
      with Cons.prems sep show ?thesis by auto
    next
      case False
      with Cons.prems obtain u' where "cut_at sep cs = Some (u', v)"
        by (auto split: option.splits)
      with Cons.IH have "length v < length cs" by blast
      then show ?thesis by simp
    qed
  qed
  from found pair have "cut_at sep s = Some (a, b)" by simp
  then have "length b < length s" by (rule shorter)
  then show "((sep, b), (sep, s)) \<in> measure (\<lambda>(sep, s). length s)"
    by simp
qed

declare split_js.simps [simp del]

text \<open>
  \<^verbatim>\<open>xs.slice(start, end)\<close>: a negative index counts from the end, and both indices are
  clamped to the array.
\<close>

definition slice_js :: "int \<Rightarrow> int \<Rightarrow> 'a list \<Rightarrow> 'a list" where
  "slice_js start end xs =
     (let n = int (length xs);
          k = (if start < 0 then max (n + start) 0 else min start n);
          final = (if end < 0 then max (n + end) 0 else min end n)
      in take (nat (final - k)) (drop (nat k) xs))"

text \<open>\<^verbatim>\<open>xs.every(p)\<close>: \<^verbatim>\<open>p\<close> holds of each element; true of the empty array.\<close>

fun every_js :: "('a \<Rightarrow> bool) \<Rightarrow> 'a list \<Rightarrow> bool" where
  "every_js p [] = True"
| "every_js p (x # xs) = (if p x then every_js p xs else False)"

text \<open>\<^verbatim>\<open>xs.join(sep)\<close> on an array of strings.\<close>

fun join_js :: "string \<Rightarrow> string list \<Rightarrow> string" where
  "join_js sep [] = []"
| "join_js sep [x] = x"
| "join_js sep (x # y # ys) = x @ sep @ join_js sep (y # ys)"

subsection \<open>The environment\<close>

datatype module_copy = Require_copy | Import_copy

datatype platform = Posix | Windows

text \<open>
  \<^verbatim>\<open>os.EOL\<close> is a constant of Node's \<^verbatim>\<open>os\<close> module: a line feed on POSIX, carriage
  return and line feed on Windows.
\<close>

definition EOL :: "platform \<Rightarrow> string" where
  "EOL p = (case p of Posix \<Rightarrow> ''\<newline>'' | Windows \<Rightarrow> [CHR 0x0D, CHR 0x0A])"

text \<open>
  What the code reads from outside itself: which of the Node modules \<^verbatim>\<open>net\<close>,
  \<^verbatim>\<open>os\<close>, \<^verbatim>\<open>fs\<close> and \<^verbatim>\<open>path\<close> are defined (none in a browser; the import copy
  loads them one after the other), the platform of \<^verbatim>\<open>os\<close>, and the file system as
  \<^verbatim>\<open>getTorrcLocation\<close> probes it: \<open>torrc_exists p\<close> tells whether
  \<^verbatim>\<open>fs.existsSync(path.resolve(p).replace('~', os.homedir()))\<close> returned true (an
  exception there is caught and ignored by the code, as a false result is). The
  environment is taken as fixed while one operation runs.
\<close>

record node_env =
  copy :: module_copy
  net_loaded :: bool
  os_loaded :: "platform option"
  fs_loaded :: bool
  path_loaded :: bool
  torrc_exists :: "string \<Rightarrow> bool"

text \<open>\<^verbatim>\<open>os?.EOL || '\n'\<close>\<close>

definition line_terminator :: "node_env \<Rightarrow> string" where
  "line_terminator env =
     (case os_loaded env of
        None \<Rightarrow> ''\<newline>''
      | Some p \<Rightarrow> (if EOL p = [] then ''\<newline>'' else EOL p))"

subsection \<open>Proxy settings\<close>

text \<open>
  A JavaScript number, as far as \<^verbatim>\<open>createProxySettings\<close> looks at it: the code only
  tests it for truthiness (zero and NaN are falsy) and stores it.
\<close>

datatype number = Num int | NaN

record ProxySettings =
  ipaddress :: string
  port :: number
  type :: number

text \<open>\<^verbatim>\<open>a || b\<close> for an optional string or number \<^verbatim>\<open>a\<close>.\<close>

fun or_string :: "string option \<Rightarrow> string \<Rightarrow> string" where
  "or_string None b = b"
| "or_string (Some a) b = (if a = [] then b else a)"

fun or_number :: "number option \<Rightarrow> number \<Rightarrow> number" where
  "or_number None b = b"
| "or_number (Some NaN) b = b"
| "or_number (Some (Num n)) b = (if n = 0 then b else Num n)"

text \<open>
  \<open>dps\<close> is the module variable \<^verbatim>\<open>_defaultProxySettings\<close>; \<open>None\<close> is the undefined
  value that the require copy replaces by an object without fields.
\<close>

definition createProxySettings ::
  "ProxySettings option \<Rightarrow> string option \<Rightarrow> number option \<Rightarrow> number option \<Rightarrow> ProxySettings"
where
  "createProxySettings dps ipaddress_arg port_arg type_arg =
     (let proxySetup =
        \<lparr>ipaddress = or_string ipaddress_arg (or_string (map_option ipaddress dps) ''127.0.0.1''),
         port = or_number port_arg (or_number (map_option port dps) (Num 9050)),
         type = or_number type_arg (or_number (map_option type dps) (Num 5))\<rparr>
      in if ipaddress proxySetup = ''localhost''
         then proxySetup\<lparr>ipaddress := ''127.0.0.1''\<rparr>
         else proxySetup)"

text \<open>
  The module variable as the import copy leaves it once loaded: initialised to the
  literal, then reassigned to \<^verbatim>\<open>createProxySettings('localhost', 9050)\<close>.
\<close>

definition defaultProxySettings :: ProxySettings where
  "defaultProxySettings =
     createProxySettings (Some \<lparr>ipaddress = ''127.0.0.1'', port = Num 9050, type = Num 5\<rparr>)
       (Some ''localhost'') (Some (Num 9050)) None"

subsection \<open>The control-port hint\<close>

definition torrc_suffixes :: "string list" where
  "torrc_suffixes = ['''', ''.sample'']"

definition torrc_paths :: "string list" where
  "torrc_paths =
     [''/usr/local/etc/tor/torrc'',
      ''/tor/etc/tor/torrc'',
      ''/etc/tor/torrc'',
      ''/lib/etc/tor/torrc'',
      ''~/.torrc'',
      ''~/Library/Application Support/TorBrowser-Data/torrc'']"

text \<open>The inner and the outer loop of \<^verbatim>\<open>getTorrcLocation\<close>; \<open>Some\<close> is its early return.\<close>

fun search_suffixes :: "(string \<Rightarrow> bool) \<Rightarrow> string \<Rightarrow> string list \<Rightarrow> string option" where
  "search_suffixes ex torPath [] = None"
| "search_suffixes ex torPath (sfx # rest) =
     (if ex (torPath @ sfx) then Some (torPath @ '' ?'')
      else search_suffixes ex torPath rest)"

fun search_paths :: "(string \<Rightarrow> bool) \<Rightarrow> string list \<Rightarrow> string option" where
  "search_paths ex [] = None"
| "search_paths ex (torPath # rest) =
     (case search_suffixes ex torPath torrc_suffixes of
        Some found \<Rightarrow> Some found
      | None \<Rightarrow> search_paths ex rest)"

definition getTorrcLocation :: "node_env \<Rightarrow> string" where
  "getTorrcLocation env =
     (if \<not> path_loaded env \<or> \<not> fs_loaded env \<or> os_loaded env = None
      then ''torrc not available in browser environment''
      else (case search_paths (torrc_exists env) torrc_paths of
              Some found \<Rightarrow> found
            | None \<Rightarrow> ''torrc not found, specify with `tor --default-torrc <PATH>`''))"

text \<open>
  The template literal \<^verbatim>\<open>attachment\<close>, line by line; every line of it, the last one
  too, ends with a line feed.
\<close>

definition attachment_lines :: "module_copy \<Rightarrow> string \<Rightarrow> string list" where
  \<open>attachment_lines c location =
     ['' - Have you enabled the ControlPort in your `torrc` file? ('' @ location @ '')'',
      '''',
      ''See easy guide here (OSX, Linux, Windows):'',
      (case c of
         Require_copy \<Rightarrow>
           ''https://github.com/talmobi/tor-request#optional-configuring-tor-enabling-the-controlport''
       | Import_copy \<Rightarrow> ''https:''),
      '''',
      '' Sample torrc file:'',
      ''     ControlPort 9051'',
      ''     HashedControlPassword 16:AEBC98A67.....E81DF'',
      '''',
      ''   Generate HashedControlPassword with (last output line):'',
      ''     `tor --hash-password my_secret_password`'',
      '''',
      ''   Tell tor-request the password to use:'',
      (case c of
         Require_copy \<Rightarrow> ''     `import torFetch from "tor-request";''
       | Import_copy \<Rightarrow> ''     `import torfetch from "tor-request";''),
      (case c of
         Require_copy \<Rightarrow> ''      torFetch.TorControlPort.password = "my_secret_password";`''
       | Import_copy \<Rightarrow> ''      torfetch.TorControlPort.password = "my_secret_password";`'')]\<close>

definition attachment :: "node_env \<Rightarrow> string" where
  "attachment env =
     concat (map (\<lambda>l. l @ ''\<newline>'') (attachment_lines (copy env) (getTorrcLocation env)))"

text \<open>
  An \<^verbatim>\<open>Error\<close> object. Its \<^verbatim>\<open>message\<close> has the TypeScript type \<^verbatim>\<open>string\<close>, so of
  the guard \<^verbatim>\<open>!err || typeof err.message !== 'string'\<close> only the test for null can
  succeed.
\<close>

record js_error =
  message :: string

definition new_Error :: "string \<Rightarrow> js_error" where
  "new_Error msg = \<lparr>message = msg\<rparr>"

text \<open>
  \<^verbatim>\<open>attachCommonControlPortErrorDetails\<close> changes the object it is given and returns
  nothing: the model returns the object as it is after the call (\<open>None\<close> for null).
\<close>

definition attachCommonControlPortErrorDetails :: "node_env \<Rightarrow> js_error option \<Rightarrow> js_error option" where
  "attachCommonControlPortErrorDetails env err =
     (case err of
        None \<Rightarrow> None
      | Some e \<Rightarrow>
          (if \<not> includes_js (message e) (attachment env)
           then Some (e\<lparr>message := message e @ attachment env\<rparr>)
           else Some e))"

text \<open>The same call on an object known not to be null.\<close>

definition attached :: "node_env \<Rightarrow> js_error \<Rightarrow> js_error" where
  "attached env e =
     (case attachCommonControlPortErrorDetails env (Some e) of Some e' \<Rightarrow> e' | None \<Rightarrow> e)"

subsection \<open>The classifier\<close>

text \<open>
  The two lines of \<^verbatim>\<open>renewTorSession\<close> that compute \<^verbatim>\<open>lines\<close> and \<^verbatim>\<open>success\<close>
  from the response \<^verbatim>\<open>data\<close>, with the line terminator as a parameter.
\<close>

definition lines :: "string \<Rightarrow> string \<Rightarrow> string list" where
  "lines terminator data = slice_js 0 (- 1) (split_js terminator data)"

definition success :: "string \<Rightarrow> string \<Rightarrow> bool" where
  "success terminator data =
     every_js (\<lambda>val. length val \<le> 0 \<or> includes_js val ''250'') (lines terminator data)"

subsection \<open>\<^verbatim>\<open>TorControlPort.send\<close> and \<^verbatim>\<open>renewTorSession\<close>\<close>

record TorControlPortType =
  password :: "string option"
  host :: string
  control_port :: number

text \<open>The arguments of one call of a \<^verbatim>\<open>done\<close> callback: an error, or null and a value.\<close>

datatype 'a done_args = Err js_error | Ok 'a

text \<open>
  What the socket emits after \<^verbatim>\<open>net.connect\<close>. An error event of Node's \<^verbatim>\<open>net\<close>
  carries an \<^verbatim>\<open>Error\<close> object.
\<close>

datatype socket_event = Connect | Data string | Error_event js_error | End

text \<open>
  One call of \<^verbatim>\<open>send\<close>: the endpoint it connected to, whether the connect listener
  (registered once by \<^verbatim>\<open>net.connect\<close>) is still waiting, what was written to the
  socket, the accumulator \<^verbatim>\<open>data\<close> (here \<open>received\<close>), and what each call of
  \<^verbatim>\<open>done\<close> returned, in order.
\<close>

record 'r send_state =
  endpoint :: "(string \<times> number) option"
  connect_listener :: bool
  written :: "string list"
  received :: string
  done_calls :: "'r list"

text \<open>
  The four listeners of \<^verbatim>\<open>send\<close>. The error listener is written for any value of
  \<^verbatim>\<open>err\<close>, a null one too, as the code is.
\<close>

definition on_connect :: "string list \<Rightarrow> 'r send_state \<Rightarrow> 'r send_state" where
  "on_connect commands st =
     (let commandString = join_js ''\<newline>'' commands @ ''\<newline>''
      in st\<lparr>written := written st @ [commandString]\<rparr>)"

definition on_error ::
  "node_env \<Rightarrow> (string done_args \<Rightarrow> 'r) \<Rightarrow> js_error option \<Rightarrow> 'r send_state \<Rightarrow> 'r send_state"
where
  "on_error env done err st =
     (let r = (case attachCommonControlPortErrorDetails env err of
                 Some e \<Rightarrow> done (Err e)
               | None \<Rightarrow> done (Err (new_Error ''ControlPort communication error'')))
      in st\<lparr>done_calls := done_calls st @ [r]\<rparr>)"

definition on_data :: "string \<Rightarrow> 'r send_state \<Rightarrow> 'r send_state" where
  "on_data chunk st = st\<lparr>received := received st @ chunk\<rparr>"

definition on_end :: "(string done_args \<Rightarrow> 'r) \<Rightarrow> 'r send_state \<Rightarrow> 'r send_state" where
  "on_end done st = st\<lparr>done_calls := done_calls st @ [done (Ok (received st))]\<rparr>"

definition handle_event ::
  "node_env \<Rightarrow> string list \<Rightarrow> (string done_args \<Rightarrow> 'r) \<Rightarrow> 'r send_state \<Rightarrow> socket_event \<Rightarrow> 'r send_state"
where
  "handle_event env commands done st ev =
     (case ev of
        Connect \<Rightarrow>
          (if connect_listener st then on_connect commands (st\<lparr>connect_listener := False\<rparr>)
           else st)
      | Error_event err \<Rightarrow> on_error env done (Some err) st
      | Data chunk \<Rightarrow> on_data chunk st
      | End \<Rightarrow> on_end done st)"

text \<open>
  \<^verbatim>\<open>send\<close>, run on the events the socket emits after the call, in their order. The
  handlers are registered before the first event, and each event runs its handler to
  the end before the next one.
\<close>

definition send ::
  "node_env \<Rightarrow> TorControlPortType \<Rightarrow> string list \<Rightarrow> (string done_args \<Rightarrow> 'r) \<Rightarrow> socket_event list \<Rightarrow> 'r send_state"
where
  "send env tcp commands done events =
     (if \<not> net_loaded env
      then \<lparr>endpoint = None, connect_listener = False, written = [], received = [],
            done_calls = [done (Err (new_Error ''ControlPort is not available in browser environment''))]\<rparr>
      else foldl (handle_event env commands done)
             \<lparr>endpoint = Some (host tcp, control_port tcp), connect_listener = True,
              written = [], received = [], done_calls = []\<rparr>
             events)"

text \<open>
  The callback that \<^verbatim>\<open>renewTorSession\<close> passes to \<^verbatim>\<open>send\<close>; its result is the
  arguments of the one call it makes of the caller's \<^verbatim>\<open>done\<close>. \<^verbatim>\<open>send\<close> calls it
  with an error alone or with null and the accumulated string, so \<^verbatim>\<open>data\<close> is a
  string wherever the callback reads it.
\<close>

definition renew_callback :: "node_env \<Rightarrow> string done_args \<Rightarrow> string done_args" where
  "renew_callback env r =
     (case r of
        Err err \<Rightarrow> Err (attached env err)
      | Ok data \<Rightarrow>
          (if \<not> success (line_terminator env) data
           then (let comerr = new_Error (''Error communicating with Tor ControlPort\<newline>'' @ data)
                 in Err (attached env comerr))
           else Ok ''Tor session successfully renewed!!''))"

definition renew_commands :: "TorControlPortType \<Rightarrow> string list" where
  \<open>renew_commands tcp =
     [''authenticate "'' @ or_string (password tcp) '''' @ ''"'',
      ''signal newnym'',
      ''quit'']\<close>

definition renewTorSession ::
  "node_env \<Rightarrow> TorControlPortType \<Rightarrow> socket_event list \<Rightarrow> string done_args send_state"
where
  "renewTorSession env tcp events = send env tcp (renew_commands tcp) (renew_callback env) events"

subsection \<open>Notions used to state the properties\<close>

text \<open>The events on which a handler of \<^verbatim>\<open>send\<close> calls \<^verbatim>\<open>done\<close>.\<close>

fun completes :: "socket_event \<Rightarrow> bool" where
  "completes Connect = False"
| "completes (Data chunk) = False"
| "completes (Error_event err) = True"
| "completes End = True"

text \<open>The text that the data events of a trace deliver, in order.\<close>

fun received_text :: "socket_event list \<Rightarrow> string" where
  "received_text [] = []"
| "received_text (Data chunk # evs) = chunk @ received_text evs"
| "received_text (ev # evs) = received_text evs"

text \<open>The number of positions of \<open>s\<close> at which \<open>pat\<close> occurs.\<close>

fun occurrences :: "string \<Rightarrow> string \<Rightarrow> nat" where
  "occurrences pat [] = (if pat = [] then 1 else 0)"
| "occurrences pat (c # cs) = (if prefix pat (c # cs) then 1 else 0) + occurrences pat cs"

text \<open>
  A response as the classifier reads it: the lines it tests, each with its terminator,
  and after them the text that no terminator follows, which it drops.
\<close>

definition terminated_part :: "string \<Rightarrow> string \<Rightarrow> string" where
  "terminated_part terminator raw = concat (map (\<lambda>l. l @ terminator) (lines terminator raw))"

definition unterminated_rest :: "string \<Rightarrow> string \<Rightarrow> string" where
  "unterminated_rest terminator raw = last (split_js terminator raw)"

text \<open>The sentence of the hint that does not depend on the environment.\<close>

definition hint_question :: string where
  "hint_question = ''Have you enabled the ControlPort in your `torrc` file?''"

text \<open>
  A border of \<open>s\<close>: a non-empty proper prefix of \<open>s\<close> that is also a suffix of it. Two
  occurrences of \<open>s\<close> can overlap only in a border.
\<close>

definition border :: "string \<Rightarrow> string \<Rightarrow> bool" where
  "border r s \<longleftrightarrow> r \<noteq> [] \<and> r \<noteq> s \<and> prefix r s \<and> suffix r s"

text \<open>The strings that \<^verbatim>\<open>getTorrcLocation\<close> can return.\<close>

definition torrc_locations :: "string list" where
  "torrc_locations =
     ''torrc not available in browser environment'' #
     ''torrc not found, specify with `tor --default-torrc <PATH>`'' #
     map (\<lambda>torPath. torPath @ '' ?'') torrc_paths"

text \<open>Environments and an endpoint to evaluate the model on.\<close>

definition posix_env :: node_env where
  "posix_env =
     \<lparr>copy = Import_copy, net_loaded = True, os_loaded = Some Posix, fs_loaded = True,
      path_loaded = True, torrc_exists = (\<lambda>p. p = ''/etc/tor/torrc'')\<rparr>"

definition windows_env :: node_env where
  "windows_env =
     \<lparr>copy = Import_copy, net_loaded = True, os_loaded = Some Windows, fs_loaded = True,
      path_loaded = True, torrc_exists = (\<lambda>p. False)\<rparr>"

definition default_port :: TorControlPortType where
  "default_port = \<lparr>password = Some '''', host = ''localhost'', control_port = Num 9051\<rparr>"

section \<open>Properties\<close>

subsection \<open>The builtins\<close>

lemma includes_js_sublist: "includes_js s pat = sublist pat s"
  by (induction s) (simp_all add: sublist_Cons_right)

lemma includes_js_iff: "includes_js s pat \<longleftrightarrow> (\<exists>u v. s = u @ pat @ v)"
  by (simp add: includes_js_sublist sublist_def)

lemma slice_js_drop_last: "slice_js 0 (- 1) xs = butlast xs"
  by (cases "xs = []") (simp_all add: slice_js_def butlast_conv_take nat_diff_distrib')

lemma every_js_iff: "every_js p xs \<longleftrightarrow> (\<forall>x\<in>set xs. p x)"
  by (induction xs) simp_all

lemma lines_butlast: "lines sep raw = butlast (split_js sep raw)"
  by (simp add: lines_def slice_js_drop_last)

lemma cut_at_Some: "cut_at sep s = Some (a, b) \<Longrightarrow> s = a @ sep @ b"
proof (induction s arbitrary: a)
  case Nil
  then show ?case by simp
next
  case (Cons c cs)
  show ?case
  proof (cases "prefix sep (c # cs)")
    case True
    with Cons.prems show ?thesis
      by (auto simp: prefix_def)
  next
    case False
    with Cons.prems obtain a' where a': "cut_at sep cs = Some (a', b)" "a = c # a'"
      by (auto split: option.splits)
    with Cons.IH show ?thesis by simp
  qed
qed

lemma cut_at_None: "sep \<noteq> [] \<Longrightarrow> cut_at sep s = None \<longleftrightarrow> \<not> sublist sep s"
  by (induction s) (auto simp: sublist_Cons_right split: option.splits)

lemma split_js_not_Nil: "sep \<noteq> [] \<Longrightarrow> split_js sep s \<noteq> []"
  by (subst split_js.simps) (simp split: option.splits)

lemma split_js_no_terminator: "sep \<noteq> [] \<Longrightarrow> \<not> sublist sep s \<Longrightarrow> split_js sep s = [s]"
proof -
  assume "sep \<noteq> []" "\<not> sublist sep s"
  then have "cut_at sep s = None" by (simp add: cut_at_None)
  with \<open>sep \<noteq> []\<close> show ?thesis by (subst split_js.simps) simp
qed

lemma split_js_cut: "sep \<noteq> [] \<Longrightarrow> cut_at sep s = Some (a, b) \<Longrightarrow> split_js sep s = a # split_js sep b"
  by (subst split_js.simps) simp

lemma prefix_within: "length p \<le> length u \<Longrightarrow> prefix p (u @ x) \<longleftrightarrow> prefix p u"
  by (metis prefix_append prefix_length_prefix prefixI)

lemma cut_at_hit: "sep \<noteq> [] \<Longrightarrow> cut_at sep (sep @ b) = Some ([], b)"
  by (cases sep) simp_all

lemma cut_at_again:
  "sep \<noteq> [] \<Longrightarrow> cut_at sep s = Some (a, b) \<Longrightarrow> cut_at sep (a @ sep @ b') = Some (a, b')"
proof (induction s arbitrary: a)
  case Nil
  then show ?case by simp
next
  case (Cons c cs)
  show ?case
  proof (cases "prefix sep (c # cs)")
    case True
    with Cons.prems have "a = []" by simp
    with Cons.prems(1) show ?thesis by (simp add: cut_at_hit)
  next
    case False
    with Cons.prems obtain a' where a': "cut_at sep cs = Some (a', b)" "a = c # a'"
      by (auto split: option.splits)
    from a'(1) have cs: "cs = a' @ sep @ b" by (rule cut_at_Some)
    have "length sep \<le> length ((c # a') @ sep)" by simp
    then have "prefix sep (((c # a') @ sep) @ x) \<longleftrightarrow> prefix sep ((c # a') @ sep)" for x
      by (rule prefix_within)
    from this [of b] this [of b'] False cs have "\<not> prefix sep (c # a' @ sep @ b')"
      by simp
    moreover from Cons.IH [OF Cons.prems(1) a'(1)] have "cut_at sep (a' @ sep @ b') = Some (a', b')" .
    ultimately show ?thesis using a'(2) by simp
  qed
qed

lemma split_js_replace_rest:
  "sep \<noteq> [] \<Longrightarrow> \<not> sublist sep t \<Longrightarrow>
   split_js sep (concat (map (\<lambda>l. l @ sep) (butlast (split_js sep raw))) @ t) =
   butlast (split_js sep raw) @ [t]"
proof (induction sep raw rule: split_js.induct)
  case (1 sep s)
  show ?case
  proof (cases "cut_at sep s")
    case None
    with "1.prems" have "split_js sep s = [s]"
      by (subst split_js.simps) simp
    with "1.prems" show ?thesis by (simp add: split_js_no_terminator)
  next
    case (Some ab)
    then obtain a b where ab: "cut_at sep s = Some (a, b)" by (cases ab) simp
    with "1.prems" have s: "split_js sep s = a # split_js sep b"
      by (simp add: split_js_cut)
    from "1.prems" have ne: "split_js sep b \<noteq> []" by (simp add: split_js_not_Nil)
    let ?rest = "concat (map (\<lambda>l. l @ sep) (butlast (split_js sep b))) @ t"
    have ih: "split_js sep ?rest = butlast (split_js sep b) @ [t]"
      using "1.IH" [of ab a b] "1.prems" Some ab by simp
    from "1.prems"(1) ab have "cut_at sep (a @ sep @ ?rest) = Some (a, ?rest)"
      by (rule cut_at_again)
    with "1.prems"(1) have "split_js sep (a @ sep @ ?rest) = a # split_js sep ?rest"
      by (rule split_js_cut)
    with ih s ne show ?thesis by simp
  qed
qed

lemma split_js_concat:
  "sep \<noteq> [] \<Longrightarrow> raw = concat (map (\<lambda>l. l @ sep) (butlast (split_js sep raw))) @ last (split_js sep raw)"
proof (induction sep raw rule: split_js.induct)
  case (1 sep s)
  show ?case
  proof (cases "cut_at sep s")
    case None
    with "1.prems" have "split_js sep s = [s]"
      by (subst split_js.simps) simp
    then show ?thesis by simp
  next
    case (Some ab)
    then obtain a b where ab: "cut_at sep s = Some (a, b)" by (cases ab) simp
    with "1.prems" have s: "split_js sep s = a # split_js sep b"
      by (simp add: split_js_cut)
    from "1.prems" have ne: "split_js sep b \<noteq> []" by (simp add: split_js_not_Nil)
    have ih: "b = concat (map (\<lambda>l. l @ sep) (butlast (split_js sep b))) @ last (split_js sep b)"
      using "1.IH" [of ab a b] "1.prems" Some ab by simp
    from ab have "s = a @ sep @ b" by (rule cut_at_Some)
    with ih s ne show ?thesis by simp
  qed
qed

subsection \<open>The classifier\<close>

text \<open>
  Claim C1. For every response and every line terminator, the classifier tests the lines
  that splitting the response leaves once the last piece is dropped, and it answers true
  exactly when each of these lines is empty or holds \<^verbatim>\<open>250\<close> somewhere in it, at the
  start or further in; with no line left it answers true.
\<close>

theorem classifier_iff:
  "lines terminator raw = butlast (split_js terminator raw) \<and>
   (success terminator raw \<longleftrightarrow>
      (\<forall>l\<in>set (lines terminator raw). l = [] \<or> (\<exists>u v. l = u @ ''250'' @ v))) \<and>
   (lines terminator raw = [] \<longrightarrow> success terminator raw)"
proof (intro conjI impI)
  show "lines terminator raw = butlast (split_js terminator raw)"
    by (rule lines_butlast)
  show "success terminator raw \<longleftrightarrow>
      (\<forall>l\<in>set (lines terminator raw). l = [] \<or> (\<exists>u v. l = u @ ''250'' @ v))"
    by (simp add: success_def every_js_iff includes_js_iff)
  show "success terminator raw" if "lines terminator raw = []"
    using that by (simp add: success_def)
qed

theorem classifier_iff_witness:
  "lines ''\<newline>'' ''250 OK\<newline>id=250\<newline>\<newline>515 cut'' = [''250 OK'', ''id=250'', ''''] \<and>
   success ''\<newline>'' ''250 OK\<newline>id=250\<newline>\<newline>515 cut'' \<and>
   \<not> success ''\<newline>'' ''250 OK\<newline>515 no\<newline>'' \<and>
   lines ''\<newline>'' ''515 cut'' = [] \<and> success ''\<newline>'' ''515 cut''"
proof -
  have l1: "lines ''\<newline>'' ''250 OK\<newline>id=250\<newline>\<newline>515 cut'' = [''250 OK'', ''id=250'', '''']"
    by code_simp
  have "''250 OK'' = [] @ ''250'' @ '' OK''" and "''id=250'' = ''id='' @ ''250'' @ []"
    by simp_all
  then have "\<forall>l\<in>set [''250 OK'', ''id=250'', '''']. l = [] \<or> (\<exists>u v. l = u @ ''250'' @ v)"
    by (metis insert_iff list.simps(15) empty_iff empty_set)
  with l1 have s1: "success ''\<newline>'' ''250 OK\<newline>id=250\<newline>\<newline>515 cut''"
    using classifier_iff [of "''\<newline>''" "''250 OK\<newline>id=250\<newline>\<newline>515 cut''"] by simp
  have l2: "lines ''\<newline>'' ''250 OK\<newline>515 no\<newline>'' = [''250 OK'', ''515 no'']"
    by code_simp
  have "\<not> (\<exists>u v. ''515 no'' = u @ ''250'' @ v)"
    unfolding includes_js_iff [symmetric] by simp
  with l2 have s2: "\<not> success ''\<newline>'' ''250 OK\<newline>515 no\<newline>''"
    using classifier_iff [of "''\<newline>''" "''250 OK\<newline>515 no\<newline>''"] by simp
  have l3: "lines ''\<newline>'' ''515 cut'' = []"
    by code_simp
  then have s3: "success ''\<newline>'' ''515 cut''"
    using classifier_iff [of "''\<newline>''" "''515 cut''"] by simp
  from l1 s1 s2 l3 s3 show ?thesis by simp
qed

text \<open>The classification depends on the response through the tested lines alone.\<close>

lemma success_lines_cong: "lines sep a = lines sep b \<Longrightarrow> success sep a = success sep b"
  by (simp add: success_def)

text \<open>
  Claim C5. A response is the lines the classifier tests, each with its terminator,
  followed by the text after the last terminator. When the response is not empty and
  does not end with the terminator, that text is a line of its own, and the classifier
  drops it: putting any other text without a terminator in its place changes neither
  the tested lines nor the classification. A response that holds no terminator at all,
  a single unterminated line, leaves no line to test and classifies as successful
  whatever it says.
\<close>

theorem unterminated_rest_dropped:
  "terminator \<noteq> [] \<Longrightarrow>
   raw = terminated_part terminator raw @ unterminated_rest terminator raw \<and>
   (raw \<noteq> [] \<and> \<not> suffix terminator raw \<longrightarrow> unterminated_rest terminator raw \<noteq> []) \<and>
   (\<forall>other. \<not> includes_js other terminator \<longrightarrow>
      lines terminator (terminated_part terminator raw @ other) = lines terminator raw \<and>
      success terminator (terminated_part terminator raw @ other) = success terminator raw) \<and>
   (\<not> includes_js raw terminator \<longrightarrow> lines terminator raw = [] \<and> success terminator raw)"
proof (intro conjI impI allI)
  assume sep: "terminator \<noteq> []"
  show dec: "raw = terminated_part terminator raw @ unterminated_rest terminator raw"
    using sep unfolding terminated_part_def unterminated_rest_def lines_butlast
    by (rule split_js_concat)
  show "unterminated_rest terminator raw \<noteq> []" if "raw \<noteq> [] \<and> \<not> suffix terminator raw"
  proof
    assume empty: "unterminated_rest terminator raw = []"
    with dec have raw: "raw = terminated_part terminator raw" by simp
    show False
    proof (cases "lines terminator raw" rule: rev_cases)
      case Nil
      with raw that show False by (simp add: terminated_part_def)
    next
      case (snoc ls l)
      with raw have "raw = (concat (map (\<lambda>l. l @ terminator) ls) @ l) @ terminator"
        by (simp add: terminated_part_def)
      then have "suffix terminator raw" by (rule suffixI)
      with that show False by simp
    qed
  qed
  show l: "lines terminator (terminated_part terminator raw @ other) = lines terminator raw"
    if "\<not> includes_js other terminator" for other
    using sep that
    by (simp add: terminated_part_def lines_butlast split_js_replace_rest includes_js_sublist)
  show "success terminator (terminated_part terminator raw @ other) = success terminator raw"
    if "\<not> includes_js other terminator" for other
    using l [OF that] by (rule success_lines_cong)
  show l0: "lines terminator raw = []" if "\<not> includes_js raw terminator"
    using sep that by (simp add: lines_butlast split_js_no_terminator includes_js_sublist)
  show "success terminator raw" if "\<not> includes_js raw terminator"
    using l0 [OF that] by (simp add: success_def)
qed

theorem unterminated_rest_dropped_witness:
  "terminated_part ''\<newline>'' ''250 OK\<newline>515 failed'' = ''250 OK\<newline>'' \<and>
   unterminated_rest ''\<newline>'' ''250 OK\<newline>515 failed'' = ''515 failed'' \<and>
   success ''\<newline>'' ''250 OK\<newline>515 failed'' = success ''\<newline>'' ''250 OK\<newline>250 fine'' \<and>
   success ''\<newline>'' ''515 failed''"
proof -
  let ?raw = "''250 OK\<newline>515 failed''"
  have sep: "''\<newline>'' \<noteq> []" by simp
  note fact = unterminated_rest_dropped [OF sep, of ?raw]
  have t: "terminated_part ''\<newline>'' ?raw = ''250 OK\<newline>''"
    by code_simp
  with fact have r: "unterminated_rest ''\<newline>'' ?raw = ''515 failed''"
    by simp
  have "\<not> includes_js ''250 fine'' ''\<newline>''" by simp
  with fact have "success ''\<newline>'' (terminated_part ''\<newline>'' ?raw @ ''250 fine'') = success ''\<newline>'' ?raw"
    by blast
  with t have s: "success ''\<newline>'' ?raw = success ''\<newline>'' ''250 OK\<newline>250 fine''"
    by simp
  have "\<not> includes_js ''515 failed'' ''\<newline>''" by simp
  with unterminated_rest_dropped [OF sep, of "''515 failed''"] have "success ''\<newline>'' ''515 failed''"
    by blast
  with t r s show ?thesis by simp
qed

text \<open>
  Claim C6. The empty response classifies as successful: split by the line terminator it
  is the single empty piece, dropping that piece leaves no line, and the conjunction
  over no line is true.
\<close>

theorem classify_empty:
  "split_js (line_terminator env) [] = [[]] \<and> lines terminator [] = [] \<and> success terminator []"
proof -
  have "line_terminator env \<noteq> []"
    by (simp add: line_terminator_def EOL_def split: option.splits platform.splits)
  then have "split_js (line_terminator env) [] = [[]]"
    by (subst split_js.simps) simp
  moreover have "lines terminator [] = []"
    by (cases "terminator = []") (simp_all add: lines_butlast split_js.simps)
  ultimately show ?thesis by (simp add: success_def)
qed

subsection \<open>Runs of \<^verbatim>\<open>send\<close>\<close>

lemma handle_Connect:
  "handle_event env commands done st Connect =
     (if connect_listener st
      then st\<lparr>connect_listener := False,
              written := written st @ [join_js ''\<newline>'' commands @ ''\<newline>'']\<rparr>
      else st)"
  by (simp add: handle_event_def on_connect_def)

lemma handle_Data:
  "handle_event env commands done st (Data chunk) = st\<lparr>received := received st @ chunk\<rparr>"
  by (simp add: handle_event_def on_data_def)

lemma handle_Error:
  "handle_event env commands done st (Error_event err) =
     st\<lparr>done_calls := done_calls st @ [done (Err (attached env err))]\<rparr>"
  by (simp add: handle_event_def on_error_def attached_def attachCommonControlPortErrorDetails_def)

lemma handle_End:
  "handle_event env commands done st End =
     st\<lparr>done_calls := done_calls st @ [done (Ok (received st))]\<rparr>"
  by (simp add: handle_event_def on_end_def)

lemmas handle_simps = handle_Connect handle_Data handle_Error handle_End

lemma quiet_run:
  "\<forall>ev\<in>set pre. \<not> completes ev \<Longrightarrow>
   done_calls (foldl (handle_event env commands done) st pre) = done_calls st \<and>
   received (foldl (handle_event env commands done) st pre) = received st @ received_text pre"
proof (induction pre arbitrary: st)
  case Nil
  then show ?case by simp
next
  case (Cons ev pre)
  then show ?case
    by (cases ev) (simp_all add: handle_simps)
qed

lemma written_run:
  "written (foldl (handle_event env commands done) st evs) =
     (if connect_listener st \<and> Connect \<in> set evs
      then written st @ [join_js ''\<newline>'' commands @ ''\<newline>'']
      else written st)"
proof (induction evs arbitrary: st)
  case Nil
  then show ?case by simp
next
  case (Cons ev evs)
  show ?case
    by (cases ev) (simp_all add: Cons.IH handle_simps)
qed

lemma calls_any_commands:
  "done_calls st = done_calls st' \<Longrightarrow> received st = received st' \<Longrightarrow>
   done_calls (foldl (handle_event env commands done) st evs) =
   done_calls (foldl (handle_event env commands' done) st' evs)"
proof (induction evs arbitrary: st st')
  case Nil
  then show ?case by simp
next
  case (Cons ev evs)
  have "done_calls (handle_event env commands done st ev) =
        done_calls (handle_event env commands' done st' ev) \<and>
        received (handle_event env commands done st ev) =
        received (handle_event env commands' done st' ev)"
    using Cons.prems by (cases ev) (simp_all add: handle_simps)
  then show ?case
    using Cons.IH by simp
qed

lemma send_completed:
  assumes "net_loaded env" and "\<forall>ev\<in>set pre. \<not> completes ev"
  shows "done_calls (send env tcp commands done (pre @ [End])) = [done (Ok (received_text pre))]"
  using assms quiet_run [OF assms(2), of env commands "done"]
  by (simp add: send_def handle_simps)

lemma send_failed:
  assumes "net_loaded env" and "\<forall>ev\<in>set pre. \<not> completes ev"
  shows "done_calls (send env tcp commands done (pre @ [Error_event err])) =
         [done (Err (attached env err))]"
  using assms quiet_run [OF assms(2), of env commands "done"]
  by (simp add: send_def handle_simps)

text \<open>
  The error listener on a null \<^verbatim>\<open>err\<close>, which no event of the model delivers: it
  makes an error of its own and does not attach the hint to it.
\<close>

lemma on_error_null:
  "done_calls (on_error env done None st) =
     done_calls st @ [done (Err (new_Error ''ControlPort communication error''))]"
  by (simp add: on_error_def attachCommonControlPortErrorDetails_def)

lemma line_terminator_cases:
  "line_terminator env = ''\<newline>'' \<or> line_terminator env = [CHR 0x0D, CHR 0x0A]"
  by (simp add: line_terminator_def EOL_def split: option.splits platform.splits)

lemma attached_message:
  "message (attached env e) =
     (if includes_js (message e) (attachment env) then message e else message e @ attachment env)"
  by (simp add: attached_def attachCommonControlPortErrorDetails_def)

lemma attached_includes: "includes_js (message (attached env e)) (attachment env)"
proof (cases "includes_js (message e) (attachment env)")
  case True
  then show ?thesis by (simp add: attached_message)
next
  case False
  have "message e @ attachment env = message e @ attachment env @ []" by simp
  then have "includes_js (message e @ attachment env) (attachment env)"
    unfolding includes_js_iff by blast
  with False show ?thesis by (simp add: attached_message)
qed

lemma attachment_question: "includes_js (attachment env) hint_question"
proof -
  have "attachment env = '' - '' @ hint_question @ '' ('' @ getTorrcLocation env @ '')\<newline>'' @
      concat (map (\<lambda>l. l @ ''\<newline>'') (tl (attachment_lines (copy env) (getTorrcLocation env))))"
    by (simp add: attachment_def attachment_lines_def hint_question_def)
  then show ?thesis
    unfolding includes_js_iff by blast
qed

lemma includes_js_trans: "includes_js s t \<Longrightarrow> includes_js t u \<Longrightarrow> includes_js s u"
  unfolding includes_js_sublist by (rule sublist_order.order_trans)

lemma attached_question: "includes_js (message (attached env e)) hint_question"
  using attached_includes attachment_question by (rule includes_js_trans)

lemma no_error_calls:
  "\<forall>ev\<in>set evs. \<forall>err. ev \<noteq> Error_event err \<Longrightarrow> \<forall>r\<in>set (done_calls st). \<exists>d. r = Ok d \<Longrightarrow>
   \<forall>r\<in>set (done_calls (foldl (handle_event env commands (\<lambda>r. r)) st evs)). \<exists>d. r = Ok d"
proof (induction evs arbitrary: st)
  case Nil
  then show ?case by simp
next
  case (Cons ev evs)
  have "\<forall>r\<in>set (done_calls (handle_event env commands (\<lambda>r. r) st ev)). \<exists>d. r = Ok d"
    using Cons.prems by (cases ev) (auto simp: handle_simps)
  with Cons.IH Cons.prems(1) show ?case by simp
qed

lemma success_three_replies:
  "success (line_terminator env) ''250 OK\<newline>250 OK\<newline>250 closing connection\<newline>''"
proof -
  have "success ''\<newline>'' ''250 OK\<newline>250 OK\<newline>250 closing connection\<newline>''"
    by code_simp
  moreover have "success [CHR 0x0D, CHR 0x0A] ''250 OK\<newline>250 OK\<newline>250 closing connection\<newline>''"
    by code_simp
  ultimately show ?thesis
    using line_terminator_cases [of env] by auto
qed

subsection \<open>Renewal\<close>

text \<open>
  Claim C2. When the socket delivers a response and then ends, with no error event
  before, and the response classifies as successful, \<^verbatim>\<open>renewTorSession\<close> calls its
  callback once, with a null error and the message
  \<^verbatim>\<open>Tor session successfully renewed!!\<close>. The response of three \<^verbatim>\<open>250\<close> replies is
  such a response, whatever the line terminator of the platform.
\<close>

theorem renew_success:
  "net_loaded env \<Longrightarrow> \<forall>ev\<in>set pre. \<not> completes ev \<Longrightarrow>
   (success (line_terminator env) (received_text pre) \<longrightarrow>
      done_calls (renewTorSession env tcp (pre @ [End])) = [Ok ''Tor session successfully renewed!!'']) \<and>
   (received_text pre = ''250 OK\<newline>250 OK\<newline>250 closing connection\<newline>'' \<longrightarrow>
      done_calls (renewTorSession env tcp (pre @ [End])) = [Ok ''Tor session successfully renewed!!''])"
proof -
  assume net: "net_loaded env" and quiet: "\<forall>ev\<in>set pre. \<not> completes ev"
  have calls: "done_calls (renewTorSession env tcp (pre @ [End])) =
               [renew_callback env (Ok (received_text pre))]"
    unfolding renewTorSession_def using net quiet by (rule send_completed)
  have ok: "renew_callback env (Ok (received_text pre)) = Ok ''Tor session successfully renewed!!''"
    if "success (line_terminator env) (received_text pre)"
    using that by (simp add: renew_callback_def)
  show ?thesis
    using calls ok success_three_replies [of env] by auto
qed

theorem renew_success_witness:
  "net_loaded posix_env \<and>
   success (line_terminator posix_env) ''250 OK\<newline>250 OK\<newline>250 closing connection\<newline>'' \<and>
   done_calls (renewTorSession posix_env default_port
     [Connect, Data ''250 OK\<newline>250 OK\<newline>'', Data ''250 closing connection\<newline>'', End]) =
   [Ok ''Tor session successfully renewed!!'']"
proof -
  let ?pre = "[Connect, Data ''250 OK\<newline>250 OK\<newline>'', Data ''250 closing connection\<newline>'']"
  have net: "net_loaded posix_env" by (simp add: posix_env_def)
  have quiet: "\<forall>ev\<in>set ?pre. \<not> completes ev" by simp
  have rcv: "received_text ?pre = ''250 OK\<newline>250 OK\<newline>250 closing connection\<newline>''" by simp
  have good: "success (line_terminator posix_env) ''250 OK\<newline>250 OK\<newline>250 closing connection\<newline>''"
    by code_simp
  from renew_success [OF net quiet, of default_port] rcv good
  have "done_calls (renewTorSession posix_env default_port (?pre @ [End])) =
        [Ok ''Tor session successfully renewed!!'']"
    by simp
  with net good show ?thesis by simp
qed

text \<open>
  Claim C3 as stated fails where \<^verbatim>\<open>os.EOL\<close> is carriage return and line feed: the
  response \<^verbatim>\<open>515 Something went wrong\<close> followed by a line feed holds no such
  terminator, so it is a single unterminated piece, no line is left to test, and the
  renewal reports success.
\<close>

theorem windows_success_counterexample:
  "done_calls (renewTorSession windows_env default_port
     [Connect, Data ''515 Something went wrong\<newline>'', End]) =
   [Ok ''Tor session successfully renewed!!'']"
  by code_simp

text \<open>
  Claim C3, amended. When the socket delivers a response and then ends, with no error
  event before, and the response classifies as unsuccessful, \<^verbatim>\<open>renewTorSession\<close>
  calls its callback once, with the error made from the preamble
  \<^verbatim>\<open>Error communicating with Tor ControlPort\<close>, a line feed and the response, after the
  hint has been attached to it: its message is the preamble, the line feed, the whole
  response, and then the hint (or nothing more, when the hint already occurs in what
  precedes), and it holds the question of the hint. Where the line terminator is the
  line feed, the response \<^verbatim>\<open>515 Something went wrong\<close> followed by a line feed is
  such a response.
\<close>

theorem renew_failure:
  "net_loaded env \<Longrightarrow> \<forall>ev\<in>set pre. \<not> completes ev \<Longrightarrow>
   (\<not> success (line_terminator env) (received_text pre) \<longrightarrow>
      done_calls (renewTorSession env tcp (pre @ [End])) =
      [Err (attached env (new_Error (''Error communicating with Tor ControlPort\<newline>'' @ received_text pre)))]) \<and>
   (line_terminator env = ''\<newline>'' \<and> received_text pre = ''515 Something went wrong\<newline>'' \<longrightarrow>
      done_calls (renewTorSession env tcp (pre @ [End])) =
      [Err (attached env (new_Error ''Error communicating with Tor ControlPort\<newline>515 Something went wrong\<newline>''))]) \<and>
   (\<exists>rest. message (attached env (new_Error (''Error communicating with Tor ControlPort\<newline>'' @ raw))) =
        ''Error communicating with Tor ControlPort'' @ ''\<newline>'' @ raw @ rest \<and>
        (rest = [] \<or> rest = attachment env)) \<and>
   includes_js (message (attached env (new_Error (''Error communicating with Tor ControlPort\<newline>'' @ raw))))
     hint_question"
proof -
  assume net: "net_loaded env" and quiet: "\<forall>ev\<in>set pre. \<not> completes ev"
  have calls: "done_calls (renewTorSession env tcp (pre @ [End])) =
               [renew_callback env (Ok (received_text pre))]"
    unfolding renewTorSession_def using net quiet by (rule send_completed)
  have general: "done_calls (renewTorSession env tcp (pre @ [End])) =
      [Err (attached env (new_Error (''Error communicating with Tor ControlPort\<newline>'' @ received_text pre)))]"
    if "\<not> success (line_terminator env) (received_text pre)"
    using calls that by (simp add: renew_callback_def)
  have "\<not> success ''\<newline>'' ''515 Something went wrong\<newline>''"
    by code_simp
  then have particular: "done_calls (renewTorSession env tcp (pre @ [End])) =
      [Err (attached env (new_Error ''Error communicating with Tor ControlPort\<newline>515 Something went wrong\<newline>''))]"
    if "line_terminator env = ''\<newline>'' \<and> received_text pre = ''515 Something went wrong\<newline>''"
    using general that by simp
  have shape: "\<exists>rest. message (attached env (new_Error (''Error communicating with Tor ControlPort\<newline>'' @ raw))) =
        ''Error communicating with Tor ControlPort'' @ ''\<newline>'' @ raw @ rest \<and>
        (rest = [] \<or> rest = attachment env)"
    by (simp add: attached_message new_Error_def)
  from general particular shape show ?thesis
    by (intro conjI impI attached_question)
qed

theorem renew_failure_witness:
  "net_loaded posix_env \<and> line_terminator posix_env = ''\<newline>'' \<and>
   \<not> success (line_terminator posix_env) ''515 Something went wrong\<newline>'' \<and>
   done_calls (renewTorSession posix_env default_port
     [Connect, Data ''515 Something '', Data ''went wrong\<newline>'', End]) =
   [Err (new_Error (''Error communicating with Tor ControlPort\<newline>515 Something went wrong\<newline>'' @
      attachment posix_env))]"
proof -
  let ?pre = "[Connect, Data ''515 Something '', Data ''went wrong\<newline>'']"
  have net: "net_loaded posix_env" by (simp add: posix_env_def)
  have quiet: "\<forall>ev\<in>set ?pre. \<not> completes ev" by simp
  have rcv: "received_text ?pre = ''515 Something went wrong\<newline>''" by simp
  have lf: "line_terminator posix_env = ''\<newline>''" by code_simp
  have bad: "\<not> success (line_terminator posix_env) ''515 Something went wrong\<newline>''"
    by code_simp
  have fresh: "attached posix_env (new_Error ''Error communicating with Tor ControlPort\<newline>515 Something went wrong\<newline>'') =
      new_Error (''Error communicating with Tor ControlPort\<newline>515 Something went wrong\<newline>'' @ attachment posix_env)"
    by code_simp
  from renew_failure [OF net quiet, of default_port] rcv lf
  have "done_calls (renewTorSession posix_env default_port (?pre @ [End])) =
      [Err (attached posix_env (new_Error ''Error communicating with Tor ControlPort\<newline>515 Something went wrong\<newline>''))]"
    by simp
  with net lf bad fresh show ?thesis by simp
qed

text \<open>
  The repository's test of a failing renewal delivers \<^verbatim>\<open>515 Something went wrong\<close>
  with no terminator after it and then ends the connection, and expects an error. The
  response is a single unterminated line, so the renewal reports success.
\<close>

lemma unterminated_515_reply:
  "done_calls (renewTorSession posix_env default_port [Data ''515 Something went wrong'', End]) =
   [Ok ''Tor session successfully renewed!!'']"
  by code_simp

subsection \<open>Transport errors\<close>

text \<open>
  Claim C7. When the socket emits an error, with no end and no error event before,
  \<^verbatim>\<open>send\<close> calls its callback once with that error, whose message now holds the
  question of the control-port hint; \<^verbatim>\<open>renewTorSession\<close> passes it on to its own
  callback, the hint still in it. The outcome is the one of the error event alone: what was
  received before plays no part in it, so no response is classified. The error is the
  last event of the run, as an error destroys the socket.
\<close>

theorem transport_error_hint:
  "net_loaded env \<Longrightarrow> \<forall>ev\<in>set pre. \<not> completes ev \<Longrightarrow>
   done_calls (send env tcp commands (\<lambda>r. r) (pre @ [Error_event e])) = [Err (attached env e)] \<and>
   includes_js (message (attached env e)) hint_question \<and>
   done_calls (renewTorSession env tcp (pre @ [Error_event e])) =
     [Err (attached env (attached env e))] \<and>
   includes_js (message (attached env (attached env e))) hint_question \<and>
   done_calls (renewTorSession env tcp (pre @ [Error_event e])) =
     done_calls (renewTorSession env tcp [Error_event e])"
proof -
  assume net: "net_loaded env" and quiet: "\<forall>ev\<in>set pre. \<not> completes ev"
  have quiet0: "\<forall>ev\<in>set []. \<not> completes ev" by simp
  have "done_calls (send env tcp commands (\<lambda>r. r) (pre @ [Error_event e])) = [Err (attached env e)]"
    using send_failed [OF net quiet, of tcp commands "\<lambda>r. r" e] by simp
  moreover have "done_calls (renewTorSession env tcp (pre @ [Error_event e])) =
      [Err (attached env (attached env e))]"
    using send_failed [OF net quiet, of tcp "renew_commands tcp" "renew_callback env" e]
    by (simp add: renewTorSession_def renew_callback_def)
  moreover have "done_calls (renewTorSession env tcp (pre @ [Error_event e])) =
      done_calls (renewTorSession env tcp [Error_event e])"
    using send_failed [OF net quiet, of tcp "renew_commands tcp" "renew_callback env" e]
      send_failed [OF net quiet0, of tcp "renew_commands tcp" "renew_callback env" e]
    by (simp add: renewTorSession_def)
  ultimately show ?thesis
    by (simp add: attached_question)
qed

theorem transport_error_hint_witness:
  "net_loaded posix_env \<and>
   success (line_terminator posix_env) ''250 OK\<newline>'' \<and>
   done_calls (send posix_env default_port [''signal newnym''] (\<lambda>r. r)
     [Connect, Data ''250 OK\<newline>'', Error_event (new_Error ''read ECONNRESET'')]) =
     [Err (new_Error (''read ECONNRESET'' @ attachment posix_env))] \<and>
   done_calls (renewTorSession posix_env default_port
     [Connect, Data ''250 OK\<newline>'', Error_event (new_Error ''read ECONNRESET'')]) =
     [Err (new_Error (''read ECONNRESET'' @ attachment posix_env))] \<and>
   includes_js (''read ECONNRESET'' @ attachment posix_env) hint_question"
proof -
  let ?pre = "[Connect, Data ''250 OK\<newline>'']"
  let ?e = "new_Error ''read ECONNRESET''"
  have net: "net_loaded posix_env" by (simp add: posix_env_def)
  have quiet: "\<forall>ev\<in>set ?pre. \<not> completes ev" by simp
  have good: "success (line_terminator posix_env) ''250 OK\<newline>''" by code_simp
  have once: "attached posix_env ?e = new_Error (''read ECONNRESET'' @ attachment posix_env)"
    by code_simp
  have twice: "attached posix_env (attached posix_env ?e) =
      new_Error (''read ECONNRESET'' @ attachment posix_env)"
    by code_simp
  note fact = transport_error_hint [OF net quiet, of default_port "[''signal newnym'']" ?e]
  from fact [THEN conjunct1] once have s: "done_calls (send posix_env default_port [''signal newnym''] (\<lambda>r. r)
      (?pre @ [Error_event ?e])) = [Err (new_Error (''read ECONNRESET'' @ attachment posix_env))]"
    by (simp only:)
  from fact [THEN conjunct2, THEN conjunct2, THEN conjunct1] twice have r: "done_calls (renewTorSession posix_env default_port (?pre @ [Error_event ?e])) =
      [Err (new_Error (''read ECONNRESET'' @ attachment posix_env))]"
    by (simp only:)
  from fact [THEN conjunct2, THEN conjunct1] once have h: "includes_js (''read ECONNRESET'' @ attachment posix_env) hint_question"
    by (simp add: new_Error_def)
  from net good s r h show ?thesis by simp
qed

subsection \<open>What is written to the socket\<close>

text \<open>
  Claim C4. \<^verbatim>\<open>renewTorSession\<close> writes to the socket once, when it connects, and what
  it writes is the batch of the three commands \<^verbatim>\<open>authenticate "p"\<close>,
  \<^verbatim>\<open>signal newnym\<close> and \<^verbatim>\<open>quit\<close>, joined by line feeds and followed by one more
  line feed, where \<^verbatim>\<open>p\<close> is the password of the endpoint, empty when there is none.
\<close>

theorem renew_writes_batch:
  \<open>net_loaded env \<Longrightarrow>
   written (renewTorSession env tcp events) =
     (if Connect \<in> set events then [join_js ''\<newline>'' (renew_commands tcp) @ ''\<newline>''] else []) \<and>
   (password tcp = Some p \<longrightarrow>
      renew_commands tcp = [''authenticate "'' @ p @ ''"'', ''signal newnym'', ''quit''] \<and>
      join_js ''\<newline>'' (renew_commands tcp) @ ''\<newline>'' =
        ''authenticate "'' @ p @ ''"\<newline>signal newnym\<newline>quit\<newline>'') \<and>
   (password tcp = None \<longrightarrow>
      renew_commands tcp = [''authenticate ""'', ''signal newnym'', ''quit''] \<and>
      join_js ''\<newline>'' (renew_commands tcp) @ ''\<newline>'' =
        ''authenticate ""\<newline>signal newnym\<newline>quit\<newline>'')\<close>
proof (intro conjI impI)
  assume net: "net_loaded env"
  then show "written (renewTorSession env tcp events) =
     (if Connect \<in> set events then [join_js ''\<newline>'' (renew_commands tcp) @ ''\<newline>''] else [])"
    by (simp add: renewTorSession_def send_def written_run)
  show \<open>renew_commands tcp = [''authenticate "'' @ p @ ''"'', ''signal newnym'', ''quit'']\<close>
    if "password tcp = Some p"
    using that by (simp add: renew_commands_def)
  show \<open>join_js ''\<newline>'' (renew_commands tcp) @ ''\<newline>'' =
        ''authenticate "'' @ p @ ''"\<newline>signal newnym\<newline>quit\<newline>''\<close>
    if "password tcp = Some p"
    using that by (simp add: renew_commands_def)
  show \<open>renew_commands tcp = [''authenticate ""'', ''signal newnym'', ''quit'']\<close>
    if "password tcp = None"
    using that by (simp add: renew_commands_def)
  show \<open>join_js ''\<newline>'' (renew_commands tcp) @ ''\<newline>'' =
        ''authenticate ""\<newline>signal newnym\<newline>quit\<newline>''\<close>
    if "password tcp = None"
    using that by (simp add: renew_commands_def)
qed

theorem renew_writes_batch_witness:
  \<open>net_loaded posix_env \<and>
   written (renewTorSession posix_env (default_port\<lparr>password := Some ''s3cret''\<rparr>)
     [Connect, Data ''250 OK\<newline>'', End]) =
   [''authenticate "s3cret"\<newline>signal newnym\<newline>quit\<newline>''] \<and>
   written (renewTorSession posix_env (default_port\<lparr>password := None\<rparr>) [Connect]) =
   [''authenticate ""\<newline>signal newnym\<newline>quit\<newline>''] \<and>
   written (renewTorSession posix_env default_port [Error_event (new_Error ''connect ECONNREFUSED'')]) = []\<close>
proof -
  have net: "net_loaded posix_env" by (simp add: posix_env_def)
  have "password (default_port\<lparr>password := Some ''s3cret''\<rparr>) = Some ''s3cret''" by simp
  with renew_writes_batch [OF net, of "default_port\<lparr>password := Some ''s3cret''\<rparr>"
      "[Connect, Data ''250 OK\<newline>'', End]" "''s3cret''"]
  have a: \<open>written (renewTorSession posix_env (default_port\<lparr>password := Some ''s3cret''\<rparr>)
     [Connect, Data ''250 OK\<newline>'', End]) = [''authenticate "s3cret"\<newline>signal newnym\<newline>quit\<newline>'']\<close>
    by simp
  have "password (default_port\<lparr>password := None\<rparr>) = None" by simp
  with renew_writes_batch [OF net, of "default_port\<lparr>password := None\<rparr>" "[Connect]"]
  have b: \<open>written (renewTorSession posix_env (default_port\<lparr>password := None\<rparr>) [Connect]) =
     [''authenticate ""\<newline>signal newnym\<newline>quit\<newline>'']\<close>
    by simp
  from renew_writes_batch [OF net, of default_port "[Error_event (new_Error ''connect ECONNREFUSED'')]"]
  have c: "written (renewTorSession posix_env default_port [Error_event (new_Error ''connect ECONNREFUSED'')]) = []"
    by simp
  from net a b c show ?thesis by simp
qed

text \<open>
  Claim C10. \<^verbatim>\<open>send\<close> does not look at the number of commands: with the empty batch
  it calls its callback exactly as with any other batch, with no error unless the
  socket emits one, and on connect it writes the single line feed.
\<close>

theorem send_empty_batch:
  "done_calls (send env tcp [] done events) = done_calls (send env tcp commands done events) \<and>
   (net_loaded env \<longrightarrow>
      written (send env tcp [] done events) = (if Connect \<in> set events then [''\<newline>''] else [])) \<and>
   (net_loaded env \<and> (\<forall>ev\<in>set events. \<forall>err. ev \<noteq> Error_event err) \<longrightarrow>
      (\<forall>r\<in>set (done_calls (send env tcp [] (\<lambda>r. r) events)). \<exists>d. r = Ok d))"
proof (intro conjI impI)
  show "done_calls (send env tcp [] done events) = done_calls (send env tcp commands done events)"
    by (simp add: send_def calls_any_commands)
  show "written (send env tcp [] done events) = (if Connect \<in> set events then [''\<newline>''] else [])"
    if "net_loaded env"
    using that by (simp add: send_def written_run)
  show "\<forall>r\<in>set (done_calls (send env tcp [] (\<lambda>r. r) events)). \<exists>d. r = Ok d"
    if "net_loaded env \<and> (\<forall>ev\<in>set events. \<forall>err. ev \<noteq> Error_event err)"
  proof -
    have "\<forall>r\<in>set (done_calls
            (foldl (handle_event env [] (\<lambda>r. r))
               \<lparr>endpoint = Some (host tcp, control_port tcp), connect_listener = True,
                written = [], received = [], done_calls = []\<rparr> events)). \<exists>d. r = Ok d"
      by (rule no_error_calls) (use that in simp_all)
    with that show ?thesis by (simp add: send_def)
  qed
qed

theorem send_empty_batch_witness:
  "net_loaded posix_env \<and>
   written (send posix_env default_port [] (\<lambda>r. r) [Connect, Data ''510 Unrecognized command\<newline>'', End]) = [''\<newline>''] \<and>
   done_calls (send posix_env default_port [] (\<lambda>r. r) [Connect, Data ''510 Unrecognized command\<newline>'', End]) =
     [Ok ''510 Unrecognized command\<newline>'']"
proof -
  let ?evs = "[Connect, Data ''510 Unrecognized command\<newline>'', End]"
  have net: "net_loaded posix_env" by (simp add: posix_env_def)
  note fact = send_empty_batch [of posix_env default_port "\<lambda>r. r" ?evs "[''quit'']"]
  from fact net have w: "written (send posix_env default_port [] (\<lambda>r. r) ?evs) = [''\<newline>'']"
    by simp
  have "done_calls (send posix_env default_port [''quit''] (\<lambda>r. r) ?evs) = [Ok ''510 Unrecognized command\<newline>'']"
    by code_simp
  with fact have d: "done_calls (send posix_env default_port [] (\<lambda>r. r) ?evs) = [Ok ''510 Unrecognized command\<newline>'']"
    by simp
  from net w d show ?thesis by simp
qed

subsection \<open>Occurrences of the hint\<close>

lemma occurrences_short: "length s < length pat \<Longrightarrow> occurrences pat s = 0"
proof (induction s)
  case Nil
  then show ?case by auto
next
  case (Cons c cs)
  then have "\<not> prefix pat (c # cs)"
    by (auto dest: prefix_length_le)
  with Cons show ?case by simp
qed

lemma includes_js_occurrences: "includes_js s pat \<longleftrightarrow> 0 < occurrences pat s"
  by (induction s) auto

lemma straddle_border:
  assumes "prefix pat (m @ pat)" and "m \<noteq> []" and "\<not> prefix pat m"
  shows "\<exists>r. border r pat"
proof -
  from assms(1,3) obtain us where us: "pat = m @ us" "prefix us pat"
    by (auto simp: prefix_append)
  from us(1) assms(2) have "us \<noteq> pat" by auto
  moreover from us(1) assms(3) have "us \<noteq> []" by auto
  moreover from us(1) have "suffix us pat" by (simp add: suffix_def)
  ultimately show ?thesis using us(2) by (auto simp: border_def)
qed

lemma occurrences_self:
  assumes "pat \<noteq> []"
  shows "occurrences pat pat = 1"
proof -
  from assms obtain c cs where pat: "pat = c # cs" by (cases pat) auto
  then have "occurrences pat cs = 0" by (simp add: occurrences_short)
  then have "occurrences pat (c # cs) = 1" by (simp add: pat)
  with pat show ?thesis by simp
qed

lemma occurrences_appended:
  assumes "pat \<noteq> []" and "\<And>r. \<not> border r pat"
  shows "\<not> includes_js m pat \<Longrightarrow> occurrences pat (m @ pat) = 1"
proof (induction m)
  case Nil
  from assms(1) show ?case by (simp add: occurrences_self)
next
  case (Cons c m)
  from Cons.prems have no: "\<not> prefix pat (c # m)" and rest: "\<not> includes_js m pat"
    by simp_all
  have "\<not> prefix pat ((c # m) @ pat)"
    using straddle_border [of pat "c # m"] no assms(2) by blast
  with Cons.IH [OF rest] show ?case by simp
qed

lemma no_border:
  assumes "prefix p s" and "last s \<notin> set p" and "\<not> includes_js (tl s) p"
  shows "\<not> border r s"
proof
  assume "border r s"
  then have r: "r \<noteq> []" "r \<noteq> s" "prefix r s" "suffix r s"
    by (simp_all add: border_def)
  from r(4) obtain a where a: "s = a @ r" by (auto simp: suffix_def)
  with r(1) have last: "last r = last s" by simp
  from r(2) a have "a \<noteq> []" by auto
  with a have tl: "tl s = tl a @ r" by simp
  from assms(1) r(3) have "prefix p r \<or> prefix r p" by (rule prefix_same_cases)
  then show False
  proof
    assume "prefix p r"
    then obtain v where "r = p @ v" by (auto simp: prefix_def)
    with tl have "tl s = tl a @ p @ v" by simp
    then have "includes_js (tl s) p" unfolding includes_js_iff by blast
    with assms(3) show False by simp
  next
    assume "prefix r p"
    then have "set r \<subseteq> set p" by (auto simp: prefix_def)
    with r(1) have "last r \<in> set p" by (auto dest: last_in_set)
    with last assms(2) show False by simp
  qed
qed

lemma search_suffixes_Some: "search_suffixes ex torPath sfxs = Some found \<Longrightarrow> found = torPath @ '' ?''"
  by (induction sfxs) (auto split: if_splits)

lemma search_paths_Some: "search_paths ex ps = Some found \<Longrightarrow> found \<in> (\<lambda>torPath. torPath @ '' ?'') ` set ps"
  by (induction ps) (auto split: option.splits dest: search_suffixes_Some)

lemma getTorrcLocation_cases: "getTorrcLocation env \<in> set torrc_locations"
  by (auto simp: getTorrcLocation_def torrc_locations_def split: option.splits
      dest: search_paths_Some)

lemma attachment_start_once:
  "\<forall>location\<in>set torrc_locations.
     \<not> includes_js (tl (concat (map (\<lambda>l. l @ ''\<newline>'') (attachment_lines c location)))) '' - H''"
proof (cases c)
  case Require_copy
  show ?thesis unfolding Require_copy by code_simp
next
  case Import_copy
  show ?thesis unfolding Import_copy by code_simp
qed

lemma attachment_no_border: "\<not> border r (attachment env)"
proof (rule no_border)
  show "prefix '' - H'' (attachment env)"
    by (simp add: attachment_def attachment_lines_def)
  show "last (attachment env) \<notin> set '' - H''"
    by (simp add: attachment_def attachment_lines_def)
  show "\<not> includes_js (tl (attachment env)) '' - H''"
    unfolding attachment_def using attachment_start_once getTorrcLocation_cases by blast
qed

lemma attachment_not_Nil: "attachment env \<noteq> []"
  by (simp add: attachment_def attachment_lines_def)

lemma attached_twice: "attached env (attached env e) = attached env e"
  using attached_includes [of env e] by (simp add: attached_def attachCommonControlPortErrorDetails_def)

lemma occurrences_doubled:
  assumes "pat \<noteq> []"
  shows "2 \<le> occurrences pat (pat @ pat)"
proof -
  from assms obtain c cs where pat: "pat = c # cs" by (cases pat) auto
  have "cs @ pat = cs @ pat @ []" by simp
  then have "includes_js (cs @ pat) pat" unfolding includes_js_iff by blast
  then have "0 < occurrences pat (cs @ pat)" by (simp add: includes_js_occurrences)
  moreover have "occurrences pat ((c # cs) @ pat) =
      (if prefix pat ((c # cs) @ pat) then 1 else 0) + occurrences pat (cs @ pat)"
    by simp
  moreover have "prefix pat (pat @ pat)" by simp
  ultimately show ?thesis using pat by simp
qed

subsection \<open>Attaching the hint\<close>

text \<open>
  Claim C8 as stated fails for an error whose message already holds the hint twice:
  the hint is found in it, nothing is appended, and the message still holds it twice.
\<close>

theorem attach_twice_counterexample:
  "\<not> occurrences (attachment posix_env)
       (message (attached posix_env (attached posix_env
          (new_Error (attachment posix_env @ attachment posix_env))))) \<le> 1"
proof -
  let ?att = "attachment posix_env"
  have "?att @ ?att = [] @ ?att @ ?att" by simp
  then have "includes_js (?att @ ?att) ?att" unfolding includes_js_iff by blast
  then have same: "attached posix_env (new_Error (?att @ ?att)) = new_Error (?att @ ?att)"
    by (simp add: attached_def attachCommonControlPortErrorDetails_def new_Error_def)
  have "2 \<le> occurrences ?att (?att @ ?att)"
    using attachment_not_Nil by (rule occurrences_doubled)
  with same show ?thesis by (simp add: new_Error_def)
qed

text \<open>
  Claim C8, amended. Attaching the control-port hint to the same error twice, in the
  same environment, leaves it as attaching it once does. If the message held the hint
  at most once before, it holds it exactly once afterwards; if it held the hint more
  than once, it is left as it was.
\<close>

theorem attach_twice:
  "attachCommonControlPortErrorDetails env (attachCommonControlPortErrorDetails env err) =
     attachCommonControlPortErrorDetails env err \<and>
   (occurrences (attachment env) (message e) \<le> 1 \<longrightarrow>
      occurrences (attachment env) (message (attached env (attached env e))) = 1) \<and>
   (1 < occurrences (attachment env) (message e) \<longrightarrow> attached env (attached env e) = e)"
proof (intro conjI impI)
  show "attachCommonControlPortErrorDetails env (attachCommonControlPortErrorDetails env err) =
     attachCommonControlPortErrorDetails env err"
  proof (cases err)
    case None
    then show ?thesis by (simp add: attachCommonControlPortErrorDetails_def)
  next
    case (Some e')
    have "attachCommonControlPortErrorDetails env (Some x) = Some (attached env x)" for x
      by (simp add: attached_def attachCommonControlPortErrorDetails_def)
    with Some show ?thesis by (simp add: attached_twice)
  qed
  show "occurrences (attachment env) (message (attached env (attached env e))) = 1"
    if le: "occurrences (attachment env) (message e) \<le> 1"
  proof (cases "includes_js (message e) (attachment env)")
    case True
    then have "0 < occurrences (attachment env) (message e)"
      by (simp add: includes_js_occurrences)
    with le True show ?thesis by (simp add: attached_twice attached_message)
  next
    case False
    have "occurrences (attachment env) (message e @ attachment env) = 1"
      using attachment_not_Nil attachment_no_border False by (rule occurrences_appended)
    with False show ?thesis by (simp add: attached_twice attached_message)
  qed
  show "attached env (attached env e) = e" if "1 < occurrences (attachment env) (message e)"
  proof -
    from that have "includes_js (message e) (attachment env)"
      by (simp add: includes_js_occurrences)
    then show ?thesis by (simp add: attached_def attachCommonControlPortErrorDetails_def)
  qed
qed

theorem attach_twice_witness:
  "occurrences (attachment posix_env) ''connect ECONNREFUSED 127.0.0.1:9051'' \<le> 1 \<and>
   occurrences (attachment posix_env)
     (message (attached posix_env (attached posix_env (new_Error ''connect ECONNREFUSED 127.0.0.1:9051'')))) = 1 \<and>
   1 < occurrences (attachment posix_env) (attachment posix_env @ attachment posix_env) \<and>
   attached posix_env (attached posix_env (new_Error (attachment posix_env @ attachment posix_env))) =
     new_Error (attachment posix_env @ attachment posix_env)"
proof -
  let ?e = "new_Error ''connect ECONNREFUSED 127.0.0.1:9051''"
  let ?att = "attachment posix_env"
  have "\<not> includes_js ''connect ECONNREFUSED 127.0.0.1:9051'' ?att"
    by code_simp
  then have none: "occurrences ?att (message ?e) \<le> 1"
    by (simp add: includes_js_occurrences new_Error_def)
  with attach_twice [of posix_env _ ?e]
  have one: "occurrences ?att (message (attached posix_env (attached posix_env ?e))) = 1"
    by blast
  have "2 \<le> occurrences ?att (?att @ ?att)"
    using attachment_not_Nil by (rule occurrences_doubled)
  then have two: "1 < occurrences ?att (message (new_Error (?att @ ?att)))"
    by (simp add: new_Error_def)
  with attach_twice [of posix_env _ "new_Error (?att @ ?att)"]
  have same: "attached posix_env (attached posix_env (new_Error (?att @ ?att))) = new_Error (?att @ ?att)"
    by blast
  from none one two same show ?thesis by (simp add: new_Error_def)
qed

subsection \<open>Proxy settings\<close>

text \<open>
  Claim C9. The settings that \<^verbatim>\<open>createProxySettings\<close> returns never have the
  address \<^verbatim>\<open>localhost\<close>: when the caller passes it, or passes none and the default
  is \<^verbatim>\<open>localhost\<close>, the address is \<^verbatim>\<open>127.0.0.1\<close>. The defaults of the module are
  \<^verbatim>\<open>127.0.0.1\<close>, 9050 and 5, and a port or type that is absent is taken from them.
\<close>

theorem createProxySettings_never_localhost:
  "ipaddress (createProxySettings dps ip p t) \<noteq> ''localhost'' \<and>
   (ip = Some ''localhost'' \<longrightarrow> ipaddress (createProxySettings dps ip p t) = ''127.0.0.1'') \<and>
   ((ip = None \<or> ip = Some []) \<and> map_option ipaddress dps = Some ''localhost'' \<longrightarrow>
      ipaddress (createProxySettings dps ip p t) = ''127.0.0.1'') \<and>
   defaultProxySettings = \<lparr>ipaddress = ''127.0.0.1'', port = Num 9050, type = Num 5\<rparr> \<and>
   (dps = None \<or> dps = Some defaultProxySettings \<longrightarrow>
      port (createProxySettings dps ip None t) = Num 9050 \<and>
      type (createProxySettings dps ip p None) = Num 5 \<and>
      ((ip = None \<or> ip = Some []) \<longrightarrow> ipaddress (createProxySettings dps ip p t) = ''127.0.0.1''))"
proof -
  have d: "defaultProxySettings = \<lparr>ipaddress = ''127.0.0.1'', port = Num 9050, type = Num 5\<rparr>"
    by (simp add: defaultProxySettings_def createProxySettings_def)
  have never: "ipaddress (createProxySettings dps ip p t) \<noteq> ''localhost''" for dps ip p t
    by (simp add: createProxySettings_def Let_def)
  have passed: "ipaddress (createProxySettings dps ip p t) = ''127.0.0.1''" if "ip = Some ''localhost''"
    using that by (simp add: createProxySettings_def Let_def)
  have resolved: "ipaddress (createProxySettings dps ip p t) = ''127.0.0.1''"
    if "(ip = None \<or> ip = Some []) \<and> map_option ipaddress dps = Some ''localhost''"
    using that by (auto simp: createProxySettings_def Let_def)
  have fallback: "port (createProxySettings dps ip None t) = Num 9050 \<and>
      type (createProxySettings dps ip p None) = Num 5 \<and>
      ((ip = None \<or> ip = Some []) \<longrightarrow> ipaddress (createProxySettings dps ip p t) = ''127.0.0.1'')"
    if "dps = None \<or> dps = Some defaultProxySettings"
    using that unfolding d by (auto simp: createProxySettings_def Let_def)
  from never passed resolved d fallback show ?thesis
    by blast
qed

theorem createProxySettings_never_localhost_witness:
  "createProxySettings (Some defaultProxySettings) (Some ''localhost'') None None =
     \<lparr>ipaddress = ''127.0.0.1'', port = Num 9050, type = Num 5\<rparr> \<and>
   createProxySettings (Some \<lparr>ipaddress = ''localhost'', port = Num 9150, type = Num 4\<rparr>) None None None =
     \<lparr>ipaddress = ''127.0.0.1'', port = Num 9150, type = Num 4\<rparr> \<and>
   createProxySettings None (Some ''10.0.0.7'') (Some (Num 9150)) (Some (Num 4)) =
     \<lparr>ipaddress = ''10.0.0.7'', port = Num 9150, type = Num 4\<rparr>"
proof -
  note a = createProxySettings_never_localhost
    [of "Some defaultProxySettings" "Some ''localhost''" None None]
  note b = createProxySettings_never_localhost
    [of "Some \<lparr>ipaddress = ''localhost'', port = Num 9150, type = Num 4\<rparr>" None None None]
  have a': "ipaddress (createProxySettings (Some defaultProxySettings) (Some ''localhost'') None None) = ''127.0.0.1''"
     "port (createProxySettings (Some defaultProxySettings) (Some ''localhost'') None None) = Num 9050"
     "type (createProxySettings (Some defaultProxySettings) (Some ''localhost'') None None) = Num 5"
    using a by simp_all
  have b': "ipaddress (createProxySettings (Some \<lparr>ipaddress = ''localhost'', port = Num 9150, type = Num 4\<rparr>) None None None) = ''127.0.0.1''"
    using b by simp
  have b'': "port (createProxySettings (Some \<lparr>ipaddress = ''localhost'', port = Num 9150, type = Num 4\<rparr>) None None None) = Num 9150"
     "type (createProxySettings (Some \<lparr>ipaddress = ''localhost'', port = Num 9150, type = Num 4\<rparr>) None None None) = Num 4"
    by code_simp+
  have c: "createProxySettings None (Some ''10.0.0.7'') (Some (Num 9150)) (Some (Num 4)) =
     \<lparr>ipaddress = ''10.0.0.7'', port = Num 9150, type = Num 4\<rparr>"
    by code_simp
  have eq: "x = \<lparr>ipaddress = ipaddress x, port = port x, type = type x\<rparr>" for x :: ProxySettings
    by simp
  from a' eq [of "createProxySettings (Some defaultProxySettings) (Some ''localhost'') None None"]
  have A: "createProxySettings (Some defaultProxySettings) (Some ''localhost'') None None =
     \<lparr>ipaddress = ''127.0.0.1'', port = Num 9050, type = Num 5\<rparr>"
    by simp
  from b' b'' eq [of "createProxySettings (Some \<lparr>ipaddress = ''localhost'', port = Num 9150, type = Num 4\<rparr>) None None None"]
  have B: "createProxySettings (Some \<lparr>ipaddress = ''localhost'', port = Num 9150, type = Num 4\<rparr>) None None None =
     \<lparr>ipaddress = ''127.0.0.1'', port = Num 9150, type = Num 4\<rparr>"
    by simp
  from A B c show ?thesis by simp
qed

end
